theory Spec2Isabelle
  imports Complex_Main "HOL-Library.Char_ord" "HOL-Library.List_Lexorder"
begin

section \<open>Lane Matcher: the emitted stop position range\<close>





section \<open>Intermodal Planner: stages, statistics, relaxation grid\<close>

text \<open>
  src/tools/od_to_explicit_chains.py. A stage returned by the external stage oracle is read
  through \<^verbatim>\<open>getattr\<close>: its \<^verbatim>\<open>type\<close> (absent is \<open>None\<close>), and
  \<^verbatim>\<open>line\<close>, \<^verbatim>\<open>destStop\<close>, \<^verbatim>\<open>length\<close>, \<^verbatim>\<open>cost\<close>, \<^verbatim>\<open>travelTime\<close> after their
  defaults (\<^verbatim>\<open>""\<close> and \<^verbatim>\<open>0.0\<close>) were applied. Floats are reals.
\<close>

record stage =
  st_type :: "int option"
  st_line :: string
  st_destStop :: string
  st_length :: real
  st_cost :: real
  st_travelTime :: real

definition is_ride :: "stage \<Rightarrow> bool" where
  "is_ride st = (st_type st = Some 3 \<or> (st_line st \<noteq> [] \<and> st_destStop st \<noteq> []))"

definition is_walk :: "stage \<Rightarrow> bool" where
  "is_walk st = (st_type st = Some 2 \<or> (st_line st = [] \<and> st_type st \<noteq> None))"

text \<open>An anchor: the dictionary \<^verbatim>\<open>{"edge": e}\<close> or \<^verbatim>\<open>{"busStop": s}\<close>.\<close>

datatype ref = Edge string | BusStop string

datatype leg_kind = Walk | Ride

record leg =
  leg_type :: leg_kind
  leg_from :: ref
  leg_to :: ref
  leg_lines :: "string list option"

text \<open>The three \<^verbatim>\<open>ValueError\<close>s of \<^verbatim>\<open>_stages_to_plan\<close>, with the data their messages print.\<close>

datatype plan_error =
    Ride_from_non_stop nat ref
  | Ride_empty_destStop nat
  | Unsupported_stage nat "int option" string string

text \<open>
  The loop of \<^verbatim>\<open>_stages_to_plan\<close> (lines 98-135): \<open>idx\<close> is the enumeration index,
  \<open>current_ref\<close> the running anchor, \<open>legs\<close> the list built so far.
\<close>

fun stages_loop ::
  "string \<Rightarrow> nat \<Rightarrow> stage list \<Rightarrow> ref \<Rightarrow> leg list \<Rightarrow> plan_error + leg list" where
  "stages_loop to_edge idx [] current_ref legs = Inr legs"
| "stages_loop to_edge idx (st # rest) current_ref legs =
     (if is_ride st then
        (case current_ref of
           Edge e \<Rightarrow> Inl (Ride_from_non_stop idx current_ref)
         | BusStop s \<Rightarrow>
             if st_destStop st = [] then Inl (Ride_empty_destStop idx)
             else stages_loop to_edge (Suc idx) rest (BusStop (st_destStop st))
                    (legs @ [\<lparr>leg_type = Ride, leg_from = BusStop s,
                               leg_to = BusStop (st_destStop st),
                               leg_lines = Some (if st_line st \<noteq> [] then [st_line st] else [])\<rparr>]))
      else if is_walk st then
        (if st_destStop st \<noteq> [] then
           stages_loop to_edge (Suc idx) rest (BusStop (st_destStop st))
             (legs @ [\<lparr>leg_type = Walk, leg_from = current_ref,
                        leg_to = BusStop (st_destStop st), leg_lines = None\<rparr>])
         else
           stages_loop to_edge (Suc idx) rest (Edge to_edge)
             (legs @ [\<lparr>leg_type = Walk, leg_from = current_ref,
                        leg_to = Edge to_edge, leg_lines = None\<rparr>]))
      else Inl (Unsupported_stage idx (st_type st) (st_line st) (st_destStop st)))"

record plan_stats =
  rideCount :: int
  transferCount :: int
  accessWalkLength :: "real option"
  egressWalkLength :: "real option"
  totalCost :: real
  totalTravelTime :: real

record routing_meta =
  acceptedWalkLimit :: real
  acceptedMaxTransfers :: int
  routing_stats :: plan_stats

record plan =
  personId :: string
  depart :: int
  legs :: "leg list"
  meta_fromEdge :: string
  meta_toEdge :: string
  meta_routing :: "routing_meta option"

definition stages_to_plan ::
  "stage list \<Rightarrow> string \<Rightarrow> int \<Rightarrow> string \<Rightarrow> string \<Rightarrow> plan_error + plan" where
  "stages_to_plan stages person_id dep from_edge to_edge =
     (case stages_loop to_edge 0 stages (Edge from_edge) [] of
        Inl e \<Rightarrow> Inl e
      | Inr ls \<Rightarrow> Inr \<lparr>personId = person_id, depart = dep, legs = ls,
                       meta_fromEdge = from_edge, meta_toEdge = to_edge,
                       meta_routing = None\<rparr>)"

text \<open>
  The loop of \<^verbatim>\<open>_plan_stats_from_stages\<close> (lines 146-160), with \<open>n = len(stages)\<close>; the
  state is \<open>(ride_count, first_walk_len, last_walk_len)\<close>.
\<close>

fun stats_loop ::
  "nat \<Rightarrow> nat \<Rightarrow> stage list \<Rightarrow> int \<times> real option \<times> real option
     \<Rightarrow> int \<times> real option \<times> real option" where
  "stats_loop n i [] acc = acc"
| "stats_loop n i (st # rest) (ride_count, first_walk_len, last_walk_len) =
     stats_loop n (Suc i) rest
       (if is_ride st then ride_count + 1 else ride_count,
        if is_walk st \<and> i = 0 \<and> st_destStop st \<noteq> [] then Some (st_length st)
        else first_walk_len,
        if is_walk st \<and> int i = int n - 1 \<and> st_destStop st = [] then Some (st_length st)
        else last_walk_len)"

definition plan_stats_from_stages :: "stage list \<Rightarrow> plan_stats" where
  "plan_stats_from_stages stages =
     (case stats_loop (length stages) 0 stages (0, None, None) of
        (ride_count, first_walk_len, last_walk_len) \<Rightarrow>
          \<lparr>rideCount = ride_count,
           transferCount = max 0 (ride_count - 1),
           accessWalkLength = first_walk_len,
           egressWalkLength = last_walk_len,
           totalCost = sum_list (map st_cost stages),
           totalTravelTime = sum_list (map st_travelTime stages)\<rparr>)"

definition meets_constraints :: "plan_stats \<Rightarrow> real option \<Rightarrow> int option \<Rightarrow> bool" where
  "meets_constraints stats max_access_egress_walk_m max_transfers =
     (if (case max_transfers of None \<Rightarrow> False | Some t \<Rightarrow> transferCount stats > t) then False
      else case max_access_egress_walk_m of
             None \<Rightarrow> True
           | Some w \<Rightarrow>
               if (case accessWalkLength stats of None \<Rightarrow> False | Some a \<Rightarrow> a > w) then False
               else if (case egressWalkLength stats of None \<Rightarrow> False | Some e \<Rightarrow> e > w)
               then False
               else True)"

definition relaxation_grid :: "real list \<Rightarrow> int list \<Rightarrow> (real \<times> int) list" where
  "relaxation_grid walk_limits_m max_transfers_seq =
     concat (map (\<lambda>t. map (\<lambda>w. (w, t)) walk_limits_m) max_transfers_seq)"

text \<open>The acceptance loop of \<^verbatim>\<open>main\<close> (lines 411-415): the first grid pair that is met.\<close>

fun first_accepted :: "plan_stats \<Rightarrow> (real \<times> int) list \<Rightarrow> (real \<times> int) option" where
  "first_accepted stats [] = None"
| "first_accepted stats ((walk_limit, max_transfers) # relax) =
     (if meets_constraints stats (Some walk_limit) (Some max_transfers)
      then Some (walk_limit, max_transfers)
      else first_accepted stats relax)"

record od =
  od_person_id :: string
  od_depart :: int
  od_from_edge :: string
  od_to_edge :: string

datatype od_status = Status_ok | Status_no_solution_under_constraints | Status_error

record report_item =
  item_personId :: string
  item_depart :: int
  item_fromEdge :: string
  item_toEdge :: string
  item_status :: od_status
  item_stats :: "plan_stats option"
  item_acceptedWalkLimit :: "real option"
  item_acceptedMaxTransfers :: "int option"
  item_error :: "plan_error option"

text \<open>
  The body of the per-request loop of \<^verbatim>\<open>main\<close> (lines 392-444) once the stage oracle has
  returned \<open>stages\<close>: the plan appended to \<^verbatim>\<open>plans\<close> (if any) and the item appended to the
  report.
\<close>

definition plan_od :: "(real \<times> int) list \<Rightarrow> od \<Rightarrow> stage list \<Rightarrow> plan option \<times> report_item" where
  "plan_od relax od stages =
     (let item = \<lparr>item_personId = od_person_id od, item_depart = od_depart od,
                  item_fromEdge = od_from_edge od, item_toEdge = od_to_edge od,
                  item_status = Status_error, item_stats = None,
                  item_acceptedWalkLimit = None, item_acceptedMaxTransfers = None,
                  item_error = None\<rparr>;
          stats = plan_stats_from_stages stages
      in case first_accepted stats relax of
           None \<Rightarrow>
             (None, item\<lparr>item_status := Status_no_solution_under_constraints,
                         item_stats := Some stats\<rparr>)
         | Some accepted \<Rightarrow>
             (case stages_to_plan stages (od_person_id od) (od_depart od)
                     (od_from_edge od) (od_to_edge od) of
                Inl e \<Rightarrow> (None, item\<lparr>item_error := Some e\<rparr>)
              | Inr p \<Rightarrow>
                  (Some (p\<lparr>meta_routing :=
                             Some \<lparr>acceptedWalkLimit = fst accepted,
                                   acceptedMaxTransfers = snd accepted,
                                   routing_stats = stats\<rparr>\<rparr>),
                   item\<lparr>item_status := Status_ok,
                        item_acceptedWalkLimit := Some (fst accepted),
                        item_acceptedMaxTransfers := Some (snd accepted),
                        item_stats := Some stats\<rparr>)))"


section \<open>Python strings\<close>




definition startswith :: "string \<Rightarrow> string \<Rightarrow> bool" where
  "startswith s p = (take (length p) s = p)"



section \<open>Timetable conversion: service-group selection\<close>







section \<open>Route Stitcher\<close>
















record stats =
  routes_total :: nat
  routes_kept :: nat
  routes_dropped_missing_stop :: nat
  routes_dropped_no_path :: nat
  routes_dropped_duarouter_missing :: nat
  routes_dropped_not_downstream :: nat
  vehicles_total :: nat
  vehicles_kept :: nat
  vehicles_dropped_route_missing :: nat
  segments_total :: nat
  segments_cached :: nat

















section \<open>Chain Validator\<close>

text \<open>
  src/tools/explicit_chains_validate.py. A routes file is its path with the \<^verbatim>\<open><vehicle>\<close>
  elements it holds, in document order; a vehicle has its \<^verbatim>\<open>id\<close> and \<^verbatim>\<open>line\<close> attributes
  (\<^verbatim>\<open>""\<close> when missing), its \<^verbatim>\<open>depart\<close> in seconds and its \<^verbatim>\<open><stop>\<close> children. A stop
  has its \<^verbatim>\<open>busStop\<close> attribute (if any) and the value \<^verbatim>\<open>_parse_until_seconds\<close> gives for its
  \<^verbatim>\<open>until\<close> attribute (\<open>None\<close> when it does not parse).
\<close>

record stop_elem =
  stop_busStop :: "string option"
  stop_until :: "int option"

record pt_vehicle =
  pv_id :: string
  pv_line :: string
  pv_depart :: int
  pv_stops :: "stop_elem list"

type_synonym routes_file = "string \<times> pt_vehicle list"

definition iter_vehicle_candidates :: "routes_file \<Rightarrow> string set \<Rightarrow> pt_vehicle list" where
  "iter_vehicle_candidates routes_xml target_lines =
     filter (\<lambda>elem. pv_line elem \<in> target_lines) (snd routes_xml)"

text \<open>
  The loop over the stops of one vehicle (lines 135-147), with the state
  \<open>(from_until, to_until, seen_from)\<close>; it stops at the first \<open>to\<close> stop it accepts.
\<close>

fun scan_stops ::
  "string \<Rightarrow> string \<Rightarrow> stop_elem list \<Rightarrow> int option \<times> int option \<times> bool
     \<Rightarrow> int option \<times> int option \<times> bool" where
  "scan_stops from_stop to_stop [] st = st"
| "scan_stops from_stop to_stop (stop # rest) (from_until, to_until, seen_from) =
     (case stop_until stop of
        None \<Rightarrow> scan_stops from_stop to_stop rest (from_until, to_until, seen_from)
      | Some until \<Rightarrow>
          (case stop_busStop stop of
             None \<Rightarrow> scan_stops from_stop to_stop rest (from_until, to_until, seen_from)
           | Some bs \<Rightarrow>
               if bs = from_stop \<and> from_until = None then
                 scan_stops from_stop to_stop rest (Some until, to_until, True)
               else if bs = to_stop \<and> seen_from \<and> to_until = None then
                 (from_until, Some until, seen_from)
               else scan_stops from_stop to_stop rest (from_until, to_until, seen_from)))"

text \<open>
  Lines 131-154 for one vehicle: the boarding and arrival time it offers for the ride, or
  \<open>None\<close> when the loop body reaches one of its two \<^verbatim>\<open>continue\<close> statements.
\<close>

definition vehicle_offer :: "string \<Rightarrow> string \<Rightarrow> int \<Rightarrow> pt_vehicle \<Rightarrow> (int \<times> int) option" where
  "vehicle_offer from_stop to_stop earliest_time vehicle =
     (case scan_stops from_stop to_stop (pv_stops vehicle) (None, None, False) of
        (from_until, to_until, seen_from) \<Rightarrow>
          (case from_until of
             None \<Rightarrow> None
           | Some fu \<Rightarrow>
               (case to_until of
                  None \<Rightarrow> None
                | Some tu \<Rightarrow> if earliest_time > fu then None else Some (fu, tu))))"

record best_vehicle =
  bv_routesFile :: string
  bv_vehicleId :: string
  bv_line :: string
  bv_vehicleDepart :: int
  bv_fromStop :: string
  bv_toStop :: string
  bv_boardLatest :: int
  bv_arrivalTime :: int

text \<open>The body of the loop over the candidate vehicles of one file (lines 126-165).\<close>

definition consider_vehicle ::
  "string \<Rightarrow> string \<Rightarrow> string \<Rightarrow> int \<Rightarrow> best_vehicle option \<Rightarrow> pt_vehicle
     \<Rightarrow> best_vehicle option" where
  "consider_vehicle routes_file from_stop to_stop earliest_time best vehicle =
     (case vehicle_offer from_stop to_stop earliest_time vehicle of
        None \<Rightarrow> best
      | Some (from_until, arrival) \<Rightarrow>
          if (case best of None \<Rightarrow> True | Some b \<Rightarrow> arrival < bv_arrivalTime b) then
            Some \<lparr>bv_routesFile = routes_file, bv_vehicleId = pv_id vehicle,
                  bv_line = pv_line vehicle, bv_vehicleDepart = pv_depart vehicle,
                  bv_fromStop = from_stop, bv_toStop = to_stop,
                  bv_boardLatest = from_until, bv_arrivalTime = arrival\<rparr>
          else best)"

definition best_vehicle_arrival ::
  "routes_file list \<Rightarrow> string list \<Rightarrow> string \<Rightarrow> string \<Rightarrow> int \<Rightarrow> best_vehicle option" where
  "best_vehicle_arrival routes_files target_lines from_stop to_stop earliest_time =
     foldl (\<lambda>best routes_file.
              foldl (consider_vehicle (fst routes_file) from_stop to_stop earliest_time) best
                (iter_vehicle_candidates routes_file (set target_lines)))
       None routes_files"

text \<open>
  The candidate vehicles in the order the two nested loops meet them: file by file, and
  within a file the vehicles of an acceptable line in document order, each with its file.
\<close>

definition candidates :: "routes_file list \<Rightarrow> string list \<Rightarrow> (string \<times> pt_vehicle) list" where
  "candidates routes_files target_lines =
     concat (map (\<lambda>routes_file. map (Pair (fst routes_file))
                    (iter_vehicle_candidates routes_file (set target_lines))) routes_files)"

text \<open>
  Feasibility of a vehicle in the words of the specification, for comparison with
  \<open>vehicle_offer\<close>: the stop-time list contains the \<open>from\<close> stop at some boarding time at or
  after the cursor, and contains the \<open>to\<close> stop at a later position with an arrival time.
\<close>

fun feasible_per_spec :: "string \<Rightarrow> string \<Rightarrow> int \<Rightarrow> stop_elem list \<Rightarrow> bool" where
  "feasible_per_spec from_stop to_stop cursor [] = False"
| "feasible_per_spec from_stop to_stop cursor (s # rest) =
     ((stop_busStop s = Some from_stop
        \<and> (case stop_until s of None \<Rightarrow> False | Some boarding \<Rightarrow> cursor \<le> boarding)
        \<and> list_ex (\<lambda>s2. stop_busStop s2 = Some to_stop \<and> stop_until s2 \<noteq> None) rest)
      \<or> feasible_per_spec from_stop to_stop cursor rest)"









datatype struct_error =
    Unknown_leg_type nat "string option"
  | Leg_starts_elsewhere nat ref ref
  | Invalid_plan_shape_error











section \<open>Angles\<close>

text \<open>
  \<^verbatim>\<open>math.atan2(y, x)\<close>, \<^verbatim>\<open>math.hypot\<close>, \<^verbatim>\<open>math.radians\<close> and the float remainder \<^verbatim>\<open>a % b\<close>
  of Python (which takes the sign of the divisor), on reals.
\<close>

definition atan2 :: "real \<Rightarrow> real \<Rightarrow> real" where
  "atan2 y x =
     (if 0 < x then arctan (y / x)
      else if x < 0 then (if 0 \<le> y then arctan (y / x) + pi else arctan (y / x) - pi)
      else if 0 < y then pi / 2
      else if y < 0 then - pi / 2
      else 0)"


definition radians :: "real \<Rightarrow> real" where
  "radians deg = deg * pi / 180"

definition py_mod :: "real \<Rightarrow> real \<Rightarrow> real" where
  "py_mod a b = a - b * of_int \<lfloor>a / b\<rfloor>"

definition angle_diff_rad :: "real \<Rightarrow> real \<Rightarrow> real" where
  "angle_diff_rad a b = \<bar>py_mod (a - b + pi) (2 * pi) - pi\<bar>"

section \<open>Lane Matcher\<close>

text \<open>
  src/map_stops_to_network_optimized.py. A lane of the network graph service, with what the
  matcher reads from it: its id, the id and function of its edge, the vehicle classes it
  allows, whether its edge has outgoing and incoming edges, and its shape.
\<close>

record lane =
  lane_id :: string
  edge_id :: string
  edge_function :: string
  lane_allows :: "string list"
  edge_has_outgoing :: bool
  edge_has_incoming :: bool
  lane_shape :: "(real \<times> real) list"

definition ROUTABLE_CLASSES :: "string list" where
  "ROUTABLE_CLASSES = [''passenger'', ''bus'', ''tram'', ''rail_urban'', ''rail_electric'',
                       ''rail'', ''rail_fast'', ''ship'', ''custom1'', ''custom2'']"

definition is_valid_lane :: "lane \<Rightarrow> bool \<Rightarrow> string list option \<Rightarrow> bool" where
  "is_valid_lane la require_connectivity require_vclasses =
     (if startswith (edge_id la) '':'' then False
      else if edge_function la \<in> {''internal'', ''connector'', ''crossing'', ''walkingarea''}
      then False
      else if \<not> list_ex (\<lambda>cls. cls \<in> set (lane_allows la))
                 (case require_vclasses of
                    None \<Rightarrow> ROUTABLE_CLASSES
                  | Some cs \<Rightarrow> if cs = [] then ROUTABLE_CLASSES else cs)
      then False
      else if require_connectivity \<and> (\<not> edge_has_outgoing la \<or> \<not> edge_has_incoming la)
      then False
      else True)"

definition lane_heading_rad :: "lane \<Rightarrow> real option" where
  "lane_heading_rad la =
     (let shape = lane_shape la in
      if length shape < 2 then None
      else (let dx = fst (last shape) - fst (hd shape);
                dy = snd (last shape) - snd (hd shape)
            in if \<bar>dx\<bar> + \<bar>dy\<bar> < 1 / 10 ^ 9 then None else Some (atan2 dy dx)))"

text \<open>
  \<^verbatim>\<open>scored.sort(key=...); scored[0]\<close> on a non-empty list: the sort is stable, so the
  element taken is the first one whose key is minimal; \<open>before\<close> is the strict order of the
  keys.
\<close>

fun first_min_by :: "('a \<Rightarrow> 'a \<Rightarrow> bool) \<Rightarrow> 'a \<Rightarrow> 'a list \<Rightarrow> 'a" where
  "first_min_by before best [] = best"
| "first_min_by before best (x # xs) =
     first_min_by before (if before x best then x else best) xs"

text \<open>The scoring loop of \<^verbatim>\<open>pick_lane\<close> (lines 223-240); an entry is \<open>(dst, d_ang, lane)\<close>.\<close>

fun score_lanes ::
  "string list option \<Rightarrow> real option \<Rightarrow> real \<Rightarrow> bool \<Rightarrow> (lane \<times> real) list
     \<Rightarrow> (real \<times> real \<times> lane) list" where
  "score_lanes require_vclasses preferred_heading_rad max_heading_diff require_connectivity [] = []"
| "score_lanes require_vclasses preferred_heading_rad max_heading_diff require_connectivity
     ((la, dst) # cands) =
     (let rest = score_lanes require_vclasses preferred_heading_rad max_heading_diff
                   require_connectivity cands
      in if \<not> is_valid_lane la require_connectivity require_vclasses then rest
         else case preferred_heading_rad of
                None \<Rightarrow> (dst, 0, la) # rest
              | Some pref \<Rightarrow>
                  (case lane_heading_rad la of
                     None \<Rightarrow> rest
                   | Some h \<Rightarrow>
                       if angle_diff_rad h pref > max_heading_diff then rest
                       else (dst, angle_diff_rad h pref, la) # rest))"

definition pick_lane ::
  "string list option \<Rightarrow> real option \<Rightarrow> real \<Rightarrow> (lane \<times> real) list \<Rightarrow> bool
     \<Rightarrow> (lane \<times> real) option" where
  "pick_lane require_vclasses preferred_heading_rad max_heading_diff cands
     require_connectivity =
     (case score_lanes require_vclasses preferred_heading_rad max_heading_diff
             require_connectivity cands of
        [] \<Rightarrow> None
      | s # scored \<Rightarrow>
          (case first_min_by
                  (\<lambda>(d1, a1, l1) (d2, a2, l2). a1 < a2 \<or> (a1 = a2 \<and> d1 < d2)) s scored of
             (dst, dang, la) \<Rightarrow> Some (la, dst)))"

definition pick_lane_ignore_heading ::
  "string list option \<Rightarrow> (lane \<times> real) list \<Rightarrow> bool \<Rightarrow> (lane \<times> real) option" where
  "pick_lane_ignore_heading require_vclasses cands require_connectivity =
     (case filter (\<lambda>(la, dst). is_valid_lane la require_connectivity require_vclasses)
             cands of
        [] \<Rightarrow> None
      | s # scored \<Rightarrow>
          (case first_min_by (\<lambda>(l1, d1) (l2, d2). d1 < d2) s scored of
             (la, dst) \<Rightarrow> Some (la, dst)))"

text \<open>
  The network is consulted through two queries at the stop's planar position:
  \<open>neighbors radius\<close> is \<^verbatim>\<open>net.getNeighboringLanes(x, y, radius)\<close>, the lanes within the
  radius with their distances, and \<open>lane_pos la\<close> is the along-lane position
  \<^verbatim>\<open>la.getClosestLanePosAndDist((x, y))[0]\<close>.
\<close>

definition radius_ladder :: "int \<Rightarrow> int list" where
  "radius_ladder max_radius =
     (if 0 < max_radius then
        (let radius_steps = filter (\<lambda>r. r \<le> max_radius) [100, 500, 1000, 2000, 4000]
         in if radius_steps = [] then [max_radius] else radius_steps)
      else [100, 500, 1000, 2000, 4000])"

text \<open>Lines 213-217: the lanes of the first radius that returns any, else of the last.\<close>

fun search_ladder :: "(int \<Rightarrow> (lane \<times> real) list) \<Rightarrow> int list \<Rightarrow> (lane \<times> real) list
     \<Rightarrow> (lane \<times> real) list" where
  "search_ladder neighbors [] lanes = lanes"
| "search_ladder neighbors (radius # radius_steps) lanes =
     (if neighbors radius \<noteq> [] then neighbors radius
      else search_ladder neighbors radius_steps (neighbors radius))"

text \<open>
  Lines 252-256: the retry without connectivity over \<^verbatim>\<open>reversed(radius_steps)\<close>. The loop
  assigns \<^verbatim>\<open>lanes\<close> at every radius, so it returns the lanes last queried with its result.
\<close>

fun retry_loop ::
  "(int \<Rightarrow> (lane \<times> real) list) \<Rightarrow> string list option \<Rightarrow> real option \<Rightarrow> real \<Rightarrow> int list
     \<Rightarrow> (lane \<times> real) list \<Rightarrow> (lane \<times> real) list \<times> (lane \<times> real) option" where
  "retry_loop neighbors require_vclasses preferred_heading_rad max_heading_diff [] lanes =
     (lanes, None)"
| "retry_loop neighbors require_vclasses preferred_heading_rad max_heading_diff
     (radius # radii) lanes =
     (case pick_lane require_vclasses preferred_heading_rad max_heading_diff
             (neighbors radius) False of
        Some found \<Rightarrow> (neighbors radius, Some found)
      | None \<Rightarrow> retry_loop neighbors require_vclasses preferred_heading_rad max_heading_diff
                  radii (neighbors radius))"

record match =
  match_edge_id :: string
  match_lane_id :: string
  match_pos :: real
  match_distance :: real

text \<open>\<^verbatim>\<open>find_nearest_edge\<close> (lines 181-288); \<open>None\<close> is the result \<^verbatim>\<open>(None, None, None, None)\<close>.\<close>

definition find_nearest_edge ::
  "(int \<Rightarrow> (lane \<times> real) list) \<Rightarrow> (lane \<Rightarrow> real) \<Rightarrow> string list option \<Rightarrow> int
     \<Rightarrow> real option \<Rightarrow> real \<Rightarrow> match option" where
  "find_nearest_edge neighbors lane_pos require_vclasses max_radius preferred_heading_rad
     max_heading_diff_deg =
     (let radius_steps = radius_ladder max_radius;
          lanes = search_ladder neighbors radius_steps []
      in if lanes = [] then None
         else
           (let max_heading_diff = radians max_heading_diff_deg;
                first_pick = pick_lane require_vclasses preferred_heading_rad max_heading_diff
                               lanes True;
                (lanes2, second_pick) =
                  (case first_pick of
                     Some found \<Rightarrow> (lanes, Some found)
                   | None \<Rightarrow> retry_loop neighbors require_vclasses preferred_heading_rad
                               max_heading_diff (rev radius_steps) lanes);
                third_pick =
                  (case second_pick of
                     Some found \<Rightarrow> Some found
                   | None \<Rightarrow> pick_lane_ignore_heading require_vclasses lanes2 False)
            in case third_pick of
                 None \<Rightarrow> None
               | Some (valid_lane, distance) \<Rightarrow>
                   Some \<lparr>match_edge_id = edge_id valid_lane, match_lane_id = lane_id valid_lane,
                         match_pos = lane_pos valid_lane, match_distance = distance\<rparr>))"

section \<open>Heading Estimator\<close>













section \<open>Example inputs\<close>

definition ex_walk :: "string \<Rightarrow> real \<Rightarrow> stage" where
  "ex_walk dest len = \<lparr>st_type = Some 2, st_line = [], st_destStop = dest,
                        st_length = len, st_cost = 0, st_travelTime = 0\<rparr>"

definition ex_ride :: "string \<Rightarrow> string \<Rightarrow> stage" where
  "ex_ride line dest = \<lparr>st_type = Some 3, st_line = line, st_destStop = dest,
                         st_length = 0, st_cost = 0, st_travelTime = 0\<rparr>"

definition ex_od :: od where
  "ex_od = \<lparr>od_person_id = ''p0'', od_depart = 400, od_from_edge = ''e1'', od_to_edge = ''e9''\<rparr>"

text \<open>The default grid of the command line: walk limits 1000, 2000, 5000; transfers 2, 3, 4.\<close>

definition ex_grid :: "(real \<times> int) list" where
  "ex_grid = relaxation_grid [1000, 2000, 5000] [2, 3, 4]"

definition ex_stages_one_ride :: "stage list" where
  "ex_stages_one_ride = [ex_walk ''S1'' 1500, ex_ride ''L1'' ''S2'', ex_walk [] 100]"

definition ex_stages_six_rides :: "stage list" where
  "ex_stages_six_rides =
     [ex_walk ''S1'' 50, ex_ride ''L1'' ''S2'', ex_ride ''L2'' ''S3'', ex_ride ''L3'' ''S4'',
      ex_ride ''L4'' ''S5'', ex_ride ''L5'' ''S6'', ex_ride ''L6'' ''S7'', ex_walk [] 50]"

definition ex_plan :: plan where
  "ex_plan =
     \<lparr>personId = ''p0'', depart = 400,
      legs = [\<lparr>leg_type = Walk, leg_from = Edge ''e1'', leg_to = BusStop ''S1'', leg_lines = None\<rparr>,
              \<lparr>leg_type = Ride, leg_from = BusStop ''S1'', leg_to = BusStop ''S2'',
               leg_lines = Some [''L1'']\<rparr>,
              \<lparr>leg_type = Walk, leg_from = BusStop ''S2'', leg_to = Edge ''e9'', leg_lines = None\<rparr>],
      meta_fromEdge = ''e1'', meta_toEdge = ''e9'', meta_routing = None\<rparr>"









text \<open>A vehicle of a loop line: it calls at stop \<open>A\<close> twice before reaching \<open>B\<close>.\<close>

definition ex_loop_vehicle :: pt_vehicle where
  "ex_loop_vehicle =
     \<lparr>pv_id = ''loop_1'', pv_line = ''L1'', pv_depart = 0,
      pv_stops = [\<lparr>stop_busStop = Some ''A'', stop_until = Some 100\<rparr>,
                  \<lparr>stop_busStop = Some ''A'', stop_until = Some 500\<rparr>,
                  \<lparr>stop_busStop = Some ''B'', stop_until = Some 600\<rparr>]\<rparr>"

definition ex_vehicle :: "string \<Rightarrow> string \<Rightarrow> int \<Rightarrow> int \<Rightarrow> pt_vehicle" where
  "ex_vehicle vid line board arrive =
     \<lparr>pv_id = vid, pv_line = line, pv_depart = 0,
      pv_stops = [\<lparr>stop_busStop = Some ''X'', stop_until = Some board\<rparr>,
                  \<lparr>stop_busStop = Some ''Y'', stop_until = Some arrive\<rparr>]\<rparr>"

text \<open>Two files; the vehicles of line \<open>L1\<close> arrive at 100, 80 and again 80.\<close>

definition ex_routes_files :: "routes_file list" where
  "ex_routes_files =
     [(''pt_0.rou.xml'', [ex_vehicle ''v100'' ''L1'' 10 100, ex_vehicle ''v80'' ''L1'' 20 80]),
      (''pt_1.rou.xml'', [ex_vehicle ''w80'' ''L1'' 30 80, ex_vehicle ''w50'' ''L2'' 5 50])]"

definition ex_best :: best_vehicle where
  "ex_best = \<lparr>bv_routesFile = ''pt_0.rou.xml'', bv_vehicleId = ''v80'', bv_line = ''L1'',
              bv_vehicleDepart = 0, bv_fromStop = ''X'', bv_toStop = ''Y'',
              bv_boardLatest = 20, bv_arrivalTime = 80\<rparr>"






text \<open>
  A lane that runs west, 300 m from the stop: nothing lies within 100 m of the stop, the lane
  within 500 m. In \<open>ex_neighbors_near\<close> the same lane is 50 m from the stop.
\<close>

definition ex_lane_west :: lane where
  "ex_lane_west =
     \<lparr>lane_id = ''E5_0'', edge_id = ''E5'', edge_function = ''normal'',
      lane_allows = [''bus'', ''passenger''], edge_has_outgoing = True,
      edge_has_incoming = True, lane_shape = [(0, 0), (-10, 0)]\<rparr>"

definition ex_neighbors :: "int \<Rightarrow> (lane \<times> real) list" where
  "ex_neighbors radius = (if radius < 300 then [] else [(ex_lane_west, 300)])"

definition ex_neighbors_near :: "int \<Rightarrow> (lane \<times> real) list" where
  "ex_neighbors_near radius = [(ex_lane_west, 50)]"






section \<open>Theorems\<close>




subsection \<open>Intermodal Planner\<close>

text \<open>The anchors of a leg list chain from \<open>cur\<close>: each leg starts where the last one ended.\<close>

lemma step_exI:
  "stages_loop to_edge i rest t (acc @ [l]) = Inr ls \<Longrightarrow> leg_to l = t \<Longrightarrow> leg_from l = cur
   \<Longrightarrow> \<exists>l. stages_loop to_edge i rest (leg_to l) (acc @ [l]) = Inr ls \<and> leg_from l = cur"
  by auto

lemma stages_loop_step:
  assumes "stages_loop to_edge idx (st # rest) cur acc = Inr ls"
  shows "\<exists>l. stages_loop to_edge (Suc idx) rest (leg_to l) (acc @ [l]) = Inr ls \<and> leg_from l = cur"
  using assms
  by (auto split: if_splits ref.splits elim!: step_exI)

lemma stages_loop_chain:
  assumes "stages_loop to_edge idx stages cur acc = Inr ls"
  shows "\<exists>new. ls = acc @ new \<and> length new = length stages
           \<and> (\<forall>i < length new. leg_from (new ! i) = (if i = 0 then cur else leg_to (new ! (i - 1))))"
  using assms
proof (induction stages arbitrary: idx cur acc)
  case Nil
  then show ?case by simp
next
  case (Cons st rest)
  from stages_loop_step [OF Cons.prems] obtain l where
    rec: "stages_loop to_edge (Suc idx) rest (leg_to l) (acc @ [l]) = Inr ls"
    and fr: "leg_from l = cur"
    by blast
  from Cons.IH [OF rec] obtain new where
    n: "ls = (acc @ [l]) @ new" "length new = length rest"
    "\<forall>i < length new. leg_from (new ! i) = (if i = 0 then leg_to l else leg_to (new ! (i - 1)))"
    by blast
  have "\<forall>i < length (l # new).
          leg_from ((l # new) ! i) = (if i = 0 then cur else leg_to ((l # new) ! (i - 1)))"
  proof (intro allI impI)
    fix i assume i: "i < length (l # new)"
    show "leg_from ((l # new) ! i) = (if i = 0 then cur else leg_to ((l # new) ! (i - 1)))"
    proof (cases i)
      case 0
      then show ?thesis using fr by simp
    next
      case (Suc j)
      with i n(3) show ?thesis by (cases j) auto
    qed
  qed
  with n(1,2) show ?case by (intro exI [of _ "l # new"]) simp
qed

text \<open>
  Claim C4. Whenever the stage-to-plan converter returns a plan (raises no error), every
  leg of the plan starts at the anchor where the previous leg ended, and the first leg (if
  there is one) starts at the request's origin edge.
\<close>

theorem stages_to_plan_chained:
  assumes "stages_to_plan stages person_id dep from_edge to_edge = Inr p"
  shows "(\<forall>i. Suc i < length (legs p) \<longrightarrow> leg_to (legs p ! i) = leg_from (legs p ! Suc i))
       \<and> (legs p \<noteq> [] \<longrightarrow> leg_from (legs p ! 0) = Edge from_edge)"
proof -
  from assms obtain ls where
    l: "stages_loop to_edge 0 stages (Edge from_edge) [] = Inr ls" and p: "legs p = ls"
    by (auto simp add: stages_to_plan_def split: sum.splits)
  from stages_loop_chain [OF l] have
    c: "\<forall>i < length ls. leg_from (ls ! i) = (if i = 0 then Edge from_edge else leg_to (ls ! (i - 1)))"
    by simp
  have "leg_to (ls ! i) = leg_from (ls ! Suc i)" if "Suc i < length ls" for i
    using c that by force
  moreover have "leg_from (ls ! 0) = Edge from_edge" if "ls \<noteq> []"
    using c that by force
  ultimately show ?thesis by (simp add: p)
qed

lemma ex_stages_to_plan:
  "stages_to_plan ex_stages_one_ride ''p0'' 400 ''e1'' ''e9'' = Inr ex_plan"
  by (simp add: stages_to_plan_def ex_stages_one_ride_def ex_walk_def ex_ride_def
      is_ride_def is_walk_def ex_plan_def)

theorem stages_to_plan_chained_witness:
  "stages_to_plan ex_stages_one_ride ''p0'' 400 ''e1'' ''e9'' = Inr ex_plan
   \<and> length (legs ex_plan) = 3
   \<and> leg_to (legs ex_plan ! 0) = leg_from (legs ex_plan ! 1)
   \<and> leg_to (legs ex_plan ! 1) = leg_from (legs ex_plan ! 2)
   \<and> leg_from (legs ex_plan ! 0) = Edge ''e1''"
proof -
  note c = stages_to_plan_chained [OF ex_stages_to_plan]
  have n: "length (legs ex_plan) = 3" by (simp add: ex_plan_def)
  from c n have "leg_to (legs ex_plan ! 0) = leg_from (legs ex_plan ! Suc 0)" by simp
  moreover from c n have "leg_to (legs ex_plan ! 1) = leg_from (legs ex_plan ! Suc 1)" by simp
  moreover from c n have "leg_from (legs ex_plan ! 0) = Edge ''e1''" by auto
  ultimately show ?thesis using ex_stages_to_plan n by (simp add: numeral_2_eq_2)
qed

lemma meets_constraints_iff:
  "meets_constraints stats mw mt \<longleftrightarrow>
     (\<forall>t. mt = Some t \<longrightarrow> transferCount stats \<le> t)
   \<and> (\<forall>w. mw = Some w \<longrightarrow>
          (\<forall>a. accessWalkLength stats = Some a \<longrightarrow> a \<le> w)
        \<and> (\<forall>e. egressWalkLength stats = Some e \<longrightarrow> e \<le> w))"
  by (auto simp add: meets_constraints_def split: option.splits)

lemma first_accepted_None:
  "first_accepted stats relax = None \<longleftrightarrow>
     (\<forall>(w, t) \<in> set relax. \<not> meets_constraints stats (Some w) (Some t))"
  by (induction relax) (auto split: if_splits)

lemma first_accepted_first:
  assumes "relax = pre @ (w, t) # post"
    and "meets_constraints stats (Some w) (Some t)"
    and "\<forall>(w', t') \<in> set pre. \<not> meets_constraints stats (Some w') (Some t')"
  shows "first_accepted stats relax = Some (w, t)"
  using assms by (induction pre arbitrary: relax) auto

lemma first_accepted_Some:
  assumes "first_accepted stats relax = Some (w, t)"
  shows "\<exists>pre post. relax = pre @ (w, t) # post
           \<and> meets_constraints stats (Some w) (Some t)
           \<and> (\<forall>(w', t') \<in> set pre. \<not> meets_constraints stats (Some w') (Some t'))"
  using assms
proof (induction relax)
  case Nil
  then show ?case by simp
next
  case (Cons p relax)
  obtain w0 t0 where p: "p = (w0, t0)" by (cases p)
  show ?case
  proof (cases "meets_constraints stats (Some w0) (Some t0)")
    case True
    with Cons.prems p have "(w, t) = (w0, t0)" by simp
    with True p show ?thesis by (intro exI [of _ "[]"] exI [of _ relax]) simp
  next
    case False
    with Cons.prems p have "first_accepted stats relax = Some (w, t)" by simp
    from Cons.IH [OF this] obtain pre post where
      "relax = pre @ (w, t) # post" "meets_constraints stats (Some w) (Some t)"
      "\<forall>(w', t') \<in> set pre. \<not> meets_constraints stats (Some w') (Some t')"
      by blast
    with False p show ?thesis
      by (intro exI [of _ "p # pre"] exI [of _ post]) simp
  qed
qed

text \<open>
  Claim C3. The planner walks the priority-ordered grid and accepts exactly the first pair
  \<open>(maxWalkLength, maxTransfers)\<close> that the statistics meet, where a pair is met when
  \<open>transferCount \<le> maxTransfers\<close> and each of the access and egress walk lengths that is
  present is \<open>\<le> maxWalkLength\<close> (an absent bound or an absent walk length constrains
  nothing). When no pair of the grid is met, no plan is emitted and the request's report item
  has status \<^verbatim>\<open>no_solution_under_constraints\<close> with the computed statistics attached;
  when a pair is accepted, a plan that is emitted records exactly that pair.
\<close>

theorem relaxation_grid_acceptance:
  fixes stages :: "stage list" and relax :: "(real \<times> int) list"
  shows
   "(meets_constraints stats mw mt \<longleftrightarrow>
       (\<forall>t. mt = Some t \<longrightarrow> transferCount stats \<le> t)
     \<and> (\<forall>w. mw = Some w \<longrightarrow>
            (\<forall>a. accessWalkLength stats = Some a \<longrightarrow> a \<le> w)
          \<and> (\<forall>e. egressWalkLength stats = Some e \<longrightarrow> e \<le> w)))
  \<and> (first_accepted stats relax = Some (w, t) \<longleftrightarrow>
       (\<exists>pre post. relax = pre @ (w, t) # post
          \<and> meets_constraints stats (Some w) (Some t)
          \<and> (\<forall>(w', t') \<in> set pre. \<not> meets_constraints stats (Some w') (Some t'))))
  \<and> (first_accepted stats relax = None \<longleftrightarrow>
       (\<forall>(w', t') \<in> set relax. \<not> meets_constraints stats (Some w') (Some t')))
  \<and> (first_accepted (plan_stats_from_stages stages) relax = None \<longrightarrow>
       fst (plan_od relax od stages) = None
     \<and> item_status (snd (plan_od relax od stages)) = Status_no_solution_under_constraints
     \<and> item_stats (snd (plan_od relax od stages)) = Some (plan_stats_from_stages stages))
  \<and> (first_accepted (plan_stats_from_stages stages) relax = Some (w, t) \<longrightarrow>
       item_status (snd (plan_od relax od stages)) \<noteq> Status_no_solution_under_constraints
     \<and> (\<forall>p. fst (plan_od relax od stages) = Some p \<longrightarrow>
            meta_routing p = Some \<lparr>acceptedWalkLimit = w, acceptedMaxTransfers = t,
                                   routing_stats = plan_stats_from_stages stages\<rparr>
          \<and> item_acceptedWalkLimit (snd (plan_od relax od stages)) = Some w
          \<and> item_acceptedMaxTransfers (snd (plan_od relax od stages)) = Some t
          \<and> item_status (snd (plan_od relax od stages)) = Status_ok))"
proof -
  have a: "first_accepted stats relax = Some (w, t) \<longleftrightarrow>
       (\<exists>pre post. relax = pre @ (w, t) # post
          \<and> meets_constraints stats (Some w) (Some t)
          \<and> (\<forall>(w', t') \<in> set pre. \<not> meets_constraints stats (Some w') (Some t')))"
    using first_accepted_Some [of stats relax w t] first_accepted_first [of relax _ w t _ stats]
    by blast
  have b: "first_accepted (plan_stats_from_stages stages) relax = None \<longrightarrow>
       fst (plan_od relax od stages) = None
     \<and> item_status (snd (plan_od relax od stages)) = Status_no_solution_under_constraints
     \<and> item_stats (snd (plan_od relax od stages)) = Some (plan_stats_from_stages stages)"
    by (simp add: plan_od_def Let_def)
  have c: "first_accepted (plan_stats_from_stages stages) relax = Some (w, t) \<longrightarrow>
       item_status (snd (plan_od relax od stages)) \<noteq> Status_no_solution_under_constraints
     \<and> (\<forall>p. fst (plan_od relax od stages) = Some p \<longrightarrow>
            meta_routing p = Some \<lparr>acceptedWalkLimit = w, acceptedMaxTransfers = t,
                                   routing_stats = plan_stats_from_stages stages\<rparr>
          \<and> item_acceptedWalkLimit (snd (plan_od relax od stages)) = Some w
          \<and> item_acceptedMaxTransfers (snd (plan_od relax od stages)) = Some t
          \<and> item_status (snd (plan_od relax od stages)) = Status_ok)"
    by (auto simp add: plan_od_def Let_def split: sum.splits)
  from a b c show ?thesis
    using meets_constraints_iff [of stats mw mt] first_accepted_None [of stats relax]
    by blast
qed


lemma ex_stats_one:
  "plan_stats_from_stages ex_stages_one_ride =
     \<lparr>rideCount = 1, transferCount = 0, accessWalkLength = Some 1500,
      egressWalkLength = Some 100, totalCost = 0, totalTravelTime = 0\<rparr>"
  by (simp add: plan_stats_from_stages_def ex_stages_one_ride_def ex_walk_def ex_ride_def
      is_ride_def is_walk_def)

lemma ex_stats_six:
  "plan_stats_from_stages ex_stages_six_rides =
     \<lparr>rideCount = 6, transferCount = 5, accessWalkLength = Some 50,
      egressWalkLength = Some 50, totalCost = 0, totalTravelTime = 0\<rparr>"
  by (simp add: plan_stats_from_stages_def ex_stages_six_rides_def ex_walk_def ex_ride_def
      is_ride_def is_walk_def)

lemma ex_grid_eval:
  "ex_grid = [(1000, 2), (2000, 2), (5000, 2), (1000, 3), (2000, 3), (5000, 3),
              (1000, 4), (2000, 4), (5000, 4)]"
  by (simp add: ex_grid_def relaxation_grid_def)

theorem relaxation_grid_acceptance_witness:
  "first_accepted (plan_stats_from_stages ex_stages_six_rides) ex_grid = None
   \<and> fst (plan_od ex_grid ex_od ex_stages_six_rides) = None
   \<and> item_status (snd (plan_od ex_grid ex_od ex_stages_six_rides))
       = Status_no_solution_under_constraints
   \<and> item_stats (snd (plan_od ex_grid ex_od ex_stages_six_rides))
       = Some (plan_stats_from_stages ex_stages_six_rides)
   \<and> transferCount (plan_stats_from_stages ex_stages_six_rides) = 5
   \<and> ex_grid = [(1000, 2)] @ (2000, 2) # tl (tl ex_grid)
   \<and> \<not> meets_constraints (plan_stats_from_stages ex_stages_one_ride) (Some 1000) (Some 2)
   \<and> meets_constraints (plan_stats_from_stages ex_stages_one_ride) (Some 2000) (Some 2)
   \<and> first_accepted (plan_stats_from_stages ex_stages_one_ride) ex_grid = Some (2000, 2)
   \<and> item_status (snd (plan_od ex_grid ex_od ex_stages_one_ride)) = Status_ok
   \<and> item_acceptedWalkLimit (snd (plan_od ex_grid ex_od ex_stages_one_ride)) = Some 2000
   \<and> item_acceptedMaxTransfers (snd (plan_od ex_grid ex_od ex_stages_one_ride)) = Some 2"
proof -
  have none: "\<forall>(w', t') \<in> set ex_grid.
      \<not> meets_constraints (plan_stats_from_stages ex_stages_six_rides) (Some w') (Some t')"
    by (simp add: ex_stats_six ex_grid_eval meets_constraints_def)
  have split: "ex_grid = [(1000, 2)] @ (2000, 2) # tl (tl ex_grid)"
    by (simp add: ex_grid_eval)
  have m1: "\<not> meets_constraints (plan_stats_from_stages ex_stages_one_ride) (Some 1000) (Some 2)"
    and m2: "meets_constraints (plan_stats_from_stages ex_stages_one_ride) (Some 2000) (Some 2)"
    by (simp_all add: ex_stats_one meets_constraints_def)
  have emitted: "fst (plan_od ex_grid ex_od ex_stages_one_ride) \<noteq> None"
    using ex_stages_to_plan
    by (simp add: plan_od_def ex_stats_one ex_grid_eval meets_constraints_def ex_od_def Let_def)
  note six = relaxation_grid_acceptance
    [of "plan_stats_from_stages ex_stages_six_rides" None None ex_grid 0 0
        ex_stages_six_rides ex_od]
  note one = relaxation_grid_acceptance
    [of "plan_stats_from_stages ex_stages_one_ride" None None ex_grid 2000 2
        ex_stages_one_ride ex_od]
  from six none have s: "first_accepted (plan_stats_from_stages ex_stages_six_rides) ex_grid = None"
    by blast
  with six have s2: "fst (plan_od ex_grid ex_od ex_stages_six_rides) = None
     \<and> item_status (snd (plan_od ex_grid ex_od ex_stages_six_rides))
         = Status_no_solution_under_constraints
     \<and> item_stats (snd (plan_od ex_grid ex_od ex_stages_six_rides))
         = Some (plan_stats_from_stages ex_stages_six_rides)"
    by blast
  from one split m1 m2
  have o: "first_accepted (plan_stats_from_stages ex_stages_one_ride) ex_grid = Some (2000, 2)"
    by (metis (no_types, lifting) case_prodI2 empty_iff empty_set list.set_intros(1) prod.inject
        set_ConsD split_conv)
  with one emitted have o2: "item_status (snd (plan_od ex_grid ex_od ex_stages_one_ride)) = Status_ok
     \<and> item_acceptedWalkLimit (snd (plan_od ex_grid ex_od ex_stages_one_ride)) = Some 2000
     \<and> item_acceptedMaxTransfers (snd (plan_od ex_grid ex_od ex_stages_one_ride)) = Some 2"
    by blast
  from s s2 split m1 m2 o o2 show ?thesis
    by (simp add: ex_stats_six)
qed

subsection \<open>Service-group selection\<close>













subsection \<open>Route Stitcher\<close>











































subsection \<open>Chain Validator: earliest-arrival search\<close>

lemma find_Some_decomp:
  "find P xs = Some x \<Longrightarrow> \<exists>pre post. xs = pre @ x # post \<and> P x \<and> (\<forall>y \<in> set pre. \<not> P y)"
proof (induction xs)
  case Nil
  then show ?case by simp
next
  case (Cons a xs)
  show ?case
  proof (cases "P a")
    case True
    with Cons.prems show ?thesis by (intro exI [of _ "[]"] exI [of _ xs]) simp
  next
    case False
    with Cons.prems have "find P xs = Some x" by simp
    from Cons.IH [OF this] obtain pre post where
      "xs = pre @ x # post" "P x" "\<forall>y \<in> set pre. \<not> P y" by blast
    with False show ?thesis by (intro exI [of _ "a # pre"] exI [of _ post]) simp
  qed
qed

lemma scan_to:
  "scan_stops f t stops (Some fu, None, True) =
     (Some fu,
      (case find (\<lambda>s. stop_busStop s = Some t \<and> stop_until s \<noteq> None) stops of
         None \<Rightarrow> None | Some s \<Rightarrow> stop_until s),
      True)"
  by (induction stops) (auto split: option.splits)

lemma scan_from:
  "scan_stops f t stops (None, None, False) =
     (case find (\<lambda>s. stop_busStop s = Some f \<and> stop_until s \<noteq> None) stops of
        None \<Rightarrow> (None, None, False)
      | Some s1 \<Rightarrow>
          scan_stops f t
            (tl (dropWhile (\<lambda>s. \<not> (stop_busStop s = Some f \<and> stop_until s \<noteq> None)) stops))
            (stop_until s1, None, True))"
  by (induction stops) (auto split: option.splits)


lemma dropWhile_decomp:
  "\<forall>y \<in> set pre. \<not> P y \<Longrightarrow> P x \<Longrightarrow> dropWhile (\<lambda>s. \<not> P s) (pre @ x # post) = x # post"
  by (induction pre) auto

lemma find_first_decomp:
  "\<forall>y \<in> set pre. \<not> P y \<Longrightarrow> P x \<Longrightarrow> find P (pre @ x # post) = Some x"
  by (induction pre) auto

lemma vehicle_offer_iff:
  "vehicle_offer f t e v = Some (fu, tu) \<longleftrightarrow>
     e \<le> fu
   \<and> (\<exists>pre s1 mid s2 post.
         pv_stops v = pre @ s1 # mid @ s2 # post
       \<and> stop_busStop s1 = Some f \<and> stop_until s1 = Some fu
       \<and> (\<forall>s \<in> set pre. \<not> (stop_busStop s = Some f \<and> stop_until s \<noteq> None))
       \<and> stop_busStop s2 = Some t \<and> stop_until s2 = Some tu
       \<and> (\<forall>s \<in> set mid. \<not> (stop_busStop s = Some t \<and> stop_until s \<noteq> None)))"
  (is "?L \<longleftrightarrow> ?R")
proof
  let ?Pf = "\<lambda>s. stop_busStop s = Some f \<and> stop_until s \<noteq> None"
  let ?Pt = "\<lambda>s. stop_busStop s = Some t \<and> stop_until s \<noteq> None"
  assume l: ?L
  then obtain s1 where f1: "find ?Pf (pv_stops v) = Some s1"
    by (cases "find ?Pf (pv_stops v)") (auto simp add: vehicle_offer_def scan_from)
  from find_Some_decomp [OF f1] obtain pre rest where
    d1: "pv_stops v = pre @ s1 # rest" "?Pf s1" "\<forall>y \<in> set pre. \<not> ?Pf y" by blast
  have "dropWhile (\<lambda>s. \<not> ?Pf s) (pre @ s1 # rest) = s1 # rest"
    by (rule dropWhile_decomp [OF d1(3) d1(2)])
  then have dw: "tl (dropWhile (\<lambda>s. \<not> ?Pf s) (pv_stops v)) = rest"
    by (simp only: d1(1) list.sel)
  from d1(2) obtain fu' where fu': "stop_until s1 = Some fu'" by auto
  from l f1 dw fu' obtain s2 where f2: "find ?Pt rest = Some s2"
    by (cases "find ?Pt rest") (auto simp add: vehicle_offer_def scan_from scan_to)
  from find_Some_decomp [OF f2] obtain mid post where
    d2: "rest = mid @ s2 # post" "?Pt s2" "\<forall>y \<in> set mid. \<not> ?Pt y" by blast
  from l f1 dw fu' f2 have "fu' = fu" "stop_until s2 = Some tu" "e \<le> fu"
    by (auto simp add: vehicle_offer_def scan_from scan_to split: if_splits option.splits)
  with d1 d2 fu' show ?R by blast
next
  let ?Pf = "\<lambda>s. stop_busStop s = Some f \<and> stop_until s \<noteq> None"
  let ?Pt = "\<lambda>s. stop_busStop s = Some t \<and> stop_until s \<noteq> None"
  assume ?R
  then obtain pre s1 mid s2 post where e: "e \<le> fu"
    and d: "pv_stops v = pre @ s1 # mid @ s2 # post"
    and s1: "stop_busStop s1 = Some f" "stop_until s1 = Some fu"
    and pre: "\<forall>s \<in> set pre. \<not> ?Pf s"
    and s2: "stop_busStop s2 = Some t" "stop_until s2 = Some tu"
    and mid: "\<forall>s \<in> set mid. \<not> ?Pt s"
    by blast
  from s1 have p1: "?Pf s1" by simp
  from s2 have p2: "?Pt s2" by simp
  have f1: "find ?Pf (pv_stops v) = Some s1"
    unfolding d by (rule find_first_decomp [OF pre p1])
  have "dropWhile (\<lambda>s. \<not> ?Pf s) (pre @ s1 # mid @ s2 # post) = s1 # mid @ s2 # post"
    by (rule dropWhile_decomp [OF pre p1])
  then have dw: "tl (dropWhile (\<lambda>s. \<not> ?Pf s) (pv_stops v)) = mid @ s2 # post"
    by (simp only: d list.sel)
  have f2: "find ?Pt (mid @ s2 # post) = Some s2"
    by (rule find_first_decomp [OF mid p2])
  have "scan_stops f t (pv_stops v) (None, None, False) = (Some fu, Some tu, True)"
    by (simp only: scan_from f1 option.case dw s1 scan_to f2 s2)
  with e show ?L
    by (simp add: vehicle_offer_def)
qed

lemma best_vehicle_arrival_flat:
  "best_vehicle_arrival routes_files target_lines f t e =
     foldl (\<lambda>best (file, v). consider_vehicle file f t e best v) None
       (candidates routes_files target_lines)"
proof -
  have "foldl (\<lambda>best routes_file.
              foldl (consider_vehicle (fst routes_file) f t e) best
                (iter_vehicle_candidates routes_file (set target_lines))) b routes_files
      = foldl (\<lambda>best (file, v). consider_vehicle file f t e best v) b
          (candidates routes_files target_lines)" for b
  proof (induction routes_files arbitrary: b)
    case Nil
    then show ?case by (simp add: candidates_def)
  next
    case (Cons rf rfs)
    have "foldl (\<lambda>best (file, v). consider_vehicle file f t e best v) b
            (map (Pair (fst rf)) vs)
          = foldl (consider_vehicle (fst rf) f t e) b vs" for vs
      by (induction vs arbitrary: b) simp_all
    with Cons.IH show ?case by (simp add: candidates_def)
  qed
  then show ?thesis by (simp add: best_vehicle_arrival_def)
qed


lemma select_first_min:
  "(foldl (\<lambda>best (file, v). consider_vehicle file f t e best v) None cs = None \<longleftrightarrow>
      (\<forall>c \<in> set cs. vehicle_offer f t e (snd c) = None))
 \<and> (\<forall>b. foldl (\<lambda>best (file, v). consider_vehicle file f t e best v) None cs = Some b \<longrightarrow>
      (\<exists>k < length cs.
          vehicle_offer f t e (snd (cs ! k)) = Some (bv_boardLatest b, bv_arrivalTime b)
        \<and> bv_routesFile b = fst (cs ! k) \<and> bv_vehicleId b = pv_id (snd (cs ! k))
        \<and> bv_line b = pv_line (snd (cs ! k)) \<and> bv_vehicleDepart b = pv_depart (snd (cs ! k))
        \<and> bv_fromStop b = f \<and> bv_toStop b = t
        \<and> (\<forall>j < length cs. \<forall>fu tu. vehicle_offer f t e (snd (cs ! j)) = Some (fu, tu) \<longrightarrow>
              bv_arrivalTime b \<le> tu \<and> (j < k \<longrightarrow> bv_arrivalTime b < tu))))"
  (is "?N cs \<and> ?S cs")
proof (induction cs rule: rev_induct)
  case Nil
  show ?case by simp
next
  case (snoc x xs)
  let ?step = "\<lambda>best (file, v). consider_vehicle file f t e best v"
  let ?r = "foldl ?step None xs"
  obtain fl v where x: "x = (fl, v)" by (cases x)
  have res: "foldl ?step None (xs @ [x]) = consider_vehicle fl f t e ?r v"
    by (simp add: x)
  from snoc.IH have ihN: "?r = None \<longleftrightarrow> (\<forall>c \<in> set xs. vehicle_offer f t e (snd c) = None)"
    by blast
  have old: "(xs @ [x]) ! j = xs ! j" if "j < length xs" for j
    using that by (simp add: nth_append)
  have new: "(xs @ [x]) ! length xs = x" by simp
  have lt: "j < length (xs @ [x]) \<longleftrightarrow> j < length xs \<or> j = length xs" for j
    by auto
  show ?case
  proof (cases "vehicle_offer f t e v")
    case None
    then have "consider_vehicle fl f t e ?r v = ?r"
      by (simp add: consider_vehicle_def)
    then have r: "foldl ?step None (xs @ [x]) = ?r"
      by (simp only: res)
    have n: "?N (xs @ [x])"
      unfolding r using ihN None x by auto
    have "?S (xs @ [x])"
    proof (intro allI impI)
      fix b assume "foldl ?step None (xs @ [x]) = Some b"
      with r have rb: "?r = Some b" by simp
      with snoc.IH obtain k where k: "k < length xs"
        and a: "vehicle_offer f t e (snd (xs ! k)) = Some (bv_boardLatest b, bv_arrivalTime b)"
          "bv_routesFile b = fst (xs ! k)" "bv_vehicleId b = pv_id (snd (xs ! k))"
          "bv_line b = pv_line (snd (xs ! k))" "bv_vehicleDepart b = pv_depart (snd (xs ! k))"
          "bv_fromStop b = f" "bv_toStop b = t"
        and m: "\<forall>j < length xs. \<forall>fu tu. vehicle_offer f t e (snd (xs ! j)) = Some (fu, tu) \<longrightarrow>
              bv_arrivalTime b \<le> tu \<and> (j < k \<longrightarrow> bv_arrivalTime b < tu)"
        by blast
      have m': "\<forall>j < length (xs @ [x]). \<forall>fu tu.
            vehicle_offer f t e (snd ((xs @ [x]) ! j)) = Some (fu, tu) \<longrightarrow>
              bv_arrivalTime b \<le> tu \<and> (j < k \<longrightarrow> bv_arrivalTime b < tu)"
      proof (intro allI impI)
        fix j fu tu assume j: "j < length (xs @ [x])"
          and o: "vehicle_offer f t e (snd ((xs @ [x]) ! j)) = Some (fu, tu)"
        from j lt consider "j < length xs" | "j = length xs" by blast
        then show "bv_arrivalTime b \<le> tu \<and> (j < k \<longrightarrow> bv_arrivalTime b < tu)"
        proof cases
          case 1
          with o m old show ?thesis by simp
        next
          case 2
          with o None x show ?thesis by simp
        qed
      qed
      from k a m' old [OF k] show "\<exists>k < length (xs @ [x]).
          vehicle_offer f t e (snd ((xs @ [x]) ! k)) = Some (bv_boardLatest b, bv_arrivalTime b)
        \<and> bv_routesFile b = fst ((xs @ [x]) ! k) \<and> bv_vehicleId b = pv_id (snd ((xs @ [x]) ! k))
        \<and> bv_line b = pv_line (snd ((xs @ [x]) ! k))
        \<and> bv_vehicleDepart b = pv_depart (snd ((xs @ [x]) ! k))
        \<and> bv_fromStop b = f \<and> bv_toStop b = t
        \<and> (\<forall>j < length (xs @ [x]). \<forall>fu tu.
              vehicle_offer f t e (snd ((xs @ [x]) ! j)) = Some (fu, tu) \<longrightarrow>
              bv_arrivalTime b \<le> tu \<and> (j < k \<longrightarrow> bv_arrivalTime b < tu))"
        by (intro exI [of _ k]) (simp del: nth_append_length)
    qed
    with n show ?thesis by blast
  next
    case (Some off)
    obtain fu0 tu0 where off: "off = (fu0, tu0)" by (cases off)
    let ?new = "\<lparr>bv_routesFile = fl, bv_vehicleId = pv_id v, bv_line = pv_line v,
                  bv_vehicleDepart = pv_depart v, bv_fromStop = f, bv_toStop = t,
                  bv_boardLatest = fu0, bv_arrivalTime = tu0\<rparr>"
    have "consider_vehicle fl f t e ?r v =
        (if (case ?r of None \<Rightarrow> True | Some b \<Rightarrow> tu0 < bv_arrivalTime b) then Some ?new else ?r)"
      using Some off by (simp add: consider_vehicle_def)
    then have r2: "foldl ?step None (xs @ [x]) =
        (if (case ?r of None \<Rightarrow> True | Some b \<Rightarrow> tu0 < bv_arrivalTime b) then Some ?new else ?r)"
      by (simp only: res)
    have n: "?N (xs @ [x])"
      unfolding r2 using Some x by (auto split: option.splits)
    have "?S (xs @ [x])"
    proof (intro allI impI)
      fix b assume fb: "foldl ?step None (xs @ [x]) = Some b"
      let ?goal = "\<exists>k < length (xs @ [x]).
          vehicle_offer f t e (snd ((xs @ [x]) ! k)) = Some (bv_boardLatest b, bv_arrivalTime b)
        \<and> bv_routesFile b = fst ((xs @ [x]) ! k) \<and> bv_vehicleId b = pv_id (snd ((xs @ [x]) ! k))
        \<and> bv_line b = pv_line (snd ((xs @ [x]) ! k))
        \<and> bv_vehicleDepart b = pv_depart (snd ((xs @ [x]) ! k))
        \<and> bv_fromStop b = f \<and> bv_toStop b = t
        \<and> (\<forall>j < length (xs @ [x]). \<forall>fu tu.
              vehicle_offer f t e (snd ((xs @ [x]) ! j)) = Some (fu, tu) \<longrightarrow>
              bv_arrivalTime b \<le> tu \<and> (j < k \<longrightarrow> bv_arrivalTime b < tu))"
      consider (fresh) "?r = None"
        | (better) b0 where "?r = Some b0" "tu0 < bv_arrivalTime b0"
        | (keep) b0 where "?r = Some b0" "\<not> tu0 < bv_arrivalTime b0"
        by (cases ?r) auto
      then show ?goal
      proof cases
        case fresh
        with fb [unfolded r2] have b: "b = ?new"
          by simp
        from fresh ihN have none: "\<forall>c \<in> set xs. vehicle_offer f t e (snd c) = None" by simp
        have m': "\<forall>j < length (xs @ [x]). \<forall>fu tu.
            vehicle_offer f t e (snd ((xs @ [x]) ! j)) = Some (fu, tu) \<longrightarrow>
              bv_arrivalTime b \<le> tu \<and> (j < length xs \<longrightarrow> bv_arrivalTime b < tu)"
        proof (intro allI impI)
          fix j fu tu assume j: "j < length (xs @ [x])"
            and o: "vehicle_offer f t e (snd ((xs @ [x]) ! j)) = Some (fu, tu)"
          from j lt consider "j < length xs" | "j = length xs" by blast
          then show "bv_arrivalTime b \<le> tu \<and> (j < length xs \<longrightarrow> bv_arrivalTime b < tu)"
          proof cases
            case 1
            with none have "vehicle_offer f t e (snd (xs ! j)) = None" by simp
            with o old [OF 1] show ?thesis by simp
          next
            case 2
            with o Some off x b show ?thesis by simp
          qed
        qed
        from m' b Some off x show ?thesis
          by (intro exI [of _ "length xs"]) simp
      next
        case better
        with fb [unfolded r2] have b: "b = ?new"
          by simp
        from better(1) snoc.IH have
          m: "\<forall>j < length xs. \<forall>fu tu. vehicle_offer f t e (snd (xs ! j)) = Some (fu, tu) \<longrightarrow>
              bv_arrivalTime b0 \<le> tu"
          by blast
        have m': "\<forall>j < length (xs @ [x]). \<forall>fu tu.
            vehicle_offer f t e (snd ((xs @ [x]) ! j)) = Some (fu, tu) \<longrightarrow>
              bv_arrivalTime b \<le> tu \<and> (j < length xs \<longrightarrow> bv_arrivalTime b < tu)"
        proof (intro allI impI)
          fix j fu tu assume j: "j < length (xs @ [x])"
            and o: "vehicle_offer f t e (snd ((xs @ [x]) ! j)) = Some (fu, tu)"
          from j lt consider "j < length xs" | "j = length xs" by blast
          then show "bv_arrivalTime b \<le> tu \<and> (j < length xs \<longrightarrow> bv_arrivalTime b < tu)"
          proof cases
            case 1
            with o old [OF 1] m have "bv_arrivalTime b0 \<le> tu" by simp
            with better(2) b show ?thesis by simp
          next
            case 2
            with o Some off x b show ?thesis by simp
          qed
        qed
        from m' b Some off x show ?thesis
          by (intro exI [of _ "length xs"]) simp
      next
        case keep
        with fb [unfolded r2] have b: "b = b0"
          by simp
        with keep(1) snoc.IH obtain k where k: "k < length xs"
          and a: "vehicle_offer f t e (snd (xs ! k)) = Some (bv_boardLatest b, bv_arrivalTime b)"
            "bv_routesFile b = fst (xs ! k)" "bv_vehicleId b = pv_id (snd (xs ! k))"
            "bv_line b = pv_line (snd (xs ! k))" "bv_vehicleDepart b = pv_depart (snd (xs ! k))"
            "bv_fromStop b = f" "bv_toStop b = t"
          and m: "\<forall>j < length xs. \<forall>fu tu. vehicle_offer f t e (snd (xs ! j)) = Some (fu, tu) \<longrightarrow>
              bv_arrivalTime b \<le> tu \<and> (j < k \<longrightarrow> bv_arrivalTime b < tu)"
          by blast
        have m': "\<forall>j < length (xs @ [x]). \<forall>fu tu.
            vehicle_offer f t e (snd ((xs @ [x]) ! j)) = Some (fu, tu) \<longrightarrow>
              bv_arrivalTime b \<le> tu \<and> (j < k \<longrightarrow> bv_arrivalTime b < tu)"
        proof (intro allI impI)
          fix j fu tu assume j: "j < length (xs @ [x])"
            and o: "vehicle_offer f t e (snd ((xs @ [x]) ! j)) = Some (fu, tu)"
          from j lt consider "j < length xs" | "j = length xs" by blast
          then show "bv_arrivalTime b \<le> tu \<and> (j < k \<longrightarrow> bv_arrivalTime b < tu)"
          proof cases
            case 1
            with o m old show ?thesis by simp
          next
            case 2
            with o Some off x keep(2) b k show ?thesis by simp
          qed
        qed
        from k a m' old [OF k] show ?thesis
          by (intro exI [of _ k]) (simp del: nth_append_length)
      qed
    qed
    with n show ?thesis by blast
  qed
qed


text \<open>
  A vehicle of a loop line calls at \<open>A\<close> at 100 and at 500 and reaches \<open>B\<close> at 600. At cursor
  200 it can be boarded at its second call, so it is feasible in the words of the
  specification; the search only reads the first call at \<open>A\<close> and finds no vehicle.
\<close>

theorem best_vehicle_arrival_loop_counterexample:
  "pv_line ex_loop_vehicle \<in> set [''L1'']
   \<and> feasible_per_spec ''A'' ''B'' 200 (pv_stops ex_loop_vehicle)
   \<and> best_vehicle_arrival [(''pt_0.rou.xml'', [ex_loop_vehicle])] [''L1''] ''A'' ''B'' 200 = None"
  by (simp add: ex_loop_vehicle_def best_vehicle_arrival_def iter_vehicle_candidates_def
      consider_vehicle_def vehicle_offer_def)

lemma candidates_set:
  "set (candidates routes_files target_lines) =
     {(file, v). \<exists>vs. (file, vs) \<in> set routes_files \<and> v \<in> set vs \<and> pv_line v \<in> set target_lines}"
  by (auto simp add: candidates_def iter_vehicle_candidates_def)

text \<open>
  Claim C2, as amended. A vehicle offers a ride from \<open>from\<close> to \<open>to\<close> iff the first entry of
  its stop-time list that names \<open>from\<close> and has a time has a boarding time at or after the
  cursor, and a later entry names \<open>to\<close> and has a time; its arrival time is the time of the
  first such later entry. The candidates are the vehicles of the acceptable lines of all
  routes files. The validator finds no vehicle iff no candidate offers the ride; otherwise
  it selects a candidate that offers it with the minimum arrival time, and the first one met
  in input order among those.
\<close>

theorem best_vehicle_arrival_spec:
  "(vehicle_offer from_stop to_stop cursor v = Some (fu, tu) \<longleftrightarrow>
      cursor \<le> fu
    \<and> (\<exists>pre s1 mid s2 post.
          pv_stops v = pre @ s1 # mid @ s2 # post
        \<and> stop_busStop s1 = Some from_stop \<and> stop_until s1 = Some fu
        \<and> (\<forall>s \<in> set pre. \<not> (stop_busStop s = Some from_stop \<and> stop_until s \<noteq> None))
        \<and> stop_busStop s2 = Some to_stop \<and> stop_until s2 = Some tu
        \<and> (\<forall>s \<in> set mid. \<not> (stop_busStop s = Some to_stop \<and> stop_until s \<noteq> None))))
 \<and> set (candidates routes_files target_lines) =
      {(file, v). \<exists>vs. (file, vs) \<in> set routes_files \<and> v \<in> set vs
                      \<and> pv_line v \<in> set target_lines}
 \<and> (best_vehicle_arrival routes_files target_lines from_stop to_stop cursor = None \<longleftrightarrow>
      (\<forall>c \<in> set (candidates routes_files target_lines).
          vehicle_offer from_stop to_stop cursor (snd c) = None))
 \<and> (\<forall>b. best_vehicle_arrival routes_files target_lines from_stop to_stop cursor = Some b \<longrightarrow>
      (\<exists>k < length (candidates routes_files target_lines).
          vehicle_offer from_stop to_stop cursor (snd (candidates routes_files target_lines ! k))
            = Some (bv_boardLatest b, bv_arrivalTime b)
        \<and> bv_routesFile b = fst (candidates routes_files target_lines ! k)
        \<and> bv_vehicleId b = pv_id (snd (candidates routes_files target_lines ! k))
        \<and> bv_line b = pv_line (snd (candidates routes_files target_lines ! k))
        \<and> bv_vehicleDepart b = pv_depart (snd (candidates routes_files target_lines ! k))
        \<and> bv_fromStop b = from_stop \<and> bv_toStop b = to_stop
        \<and> (\<forall>j < length (candidates routes_files target_lines). \<forall>fu tu.
              vehicle_offer from_stop to_stop cursor
                (snd (candidates routes_files target_lines ! j)) = Some (fu, tu) \<longrightarrow>
              bv_arrivalTime b \<le> tu \<and> (j < k \<longrightarrow> bv_arrivalTime b < tu))))"
  using vehicle_offer_iff [of from_stop to_stop cursor v fu tu]
    candidates_set [of routes_files target_lines]
    select_first_min [of from_stop to_stop cursor "candidates routes_files target_lines"]
  unfolding best_vehicle_arrival_flat [symmetric]
  by (intro conjI) (assumption | erule conjunct1 | erule conjunct2)+


lemma ex_best_at_0:
  "best_vehicle_arrival ex_routes_files [''L1''] ''X'' ''Y'' 0 = Some ex_best"
  by (simp add: ex_routes_files_def ex_vehicle_def ex_best_def best_vehicle_arrival_def
      iter_vehicle_candidates_def consider_vehicle_def vehicle_offer_def)

lemma ex_best_at_40:
  "best_vehicle_arrival ex_routes_files [''L1''] ''X'' ''Y'' 40 = None"
  by (simp add: ex_routes_files_def ex_vehicle_def best_vehicle_arrival_def
      iter_vehicle_candidates_def consider_vehicle_def vehicle_offer_def)

theorem best_vehicle_arrival_spec_witness:
  "best_vehicle_arrival ex_routes_files [''L1''] ''X'' ''Y'' 0 = Some ex_best
   \<and> bv_vehicleId ex_best = ''v80'' \<and> bv_arrivalTime ex_best = 80
   \<and> (\<exists>k < length (candidates ex_routes_files [''L1'']).
          vehicle_offer ''X'' ''Y'' 0 (snd (candidates ex_routes_files [''L1''] ! k))
            = Some (bv_boardLatest ex_best, bv_arrivalTime ex_best)
        \<and> bv_routesFile ex_best = fst (candidates ex_routes_files [''L1''] ! k)
        \<and> bv_vehicleId ex_best = pv_id (snd (candidates ex_routes_files [''L1''] ! k))
        \<and> bv_line ex_best = pv_line (snd (candidates ex_routes_files [''L1''] ! k))
        \<and> bv_vehicleDepart ex_best = pv_depart (snd (candidates ex_routes_files [''L1''] ! k))
        \<and> bv_fromStop ex_best = ''X'' \<and> bv_toStop ex_best = ''Y''
        \<and> (\<forall>j < length (candidates ex_routes_files [''L1'']). \<forall>fu tu.
              vehicle_offer ''X'' ''Y'' 0
                (snd (candidates ex_routes_files [''L1''] ! j)) = Some (fu, tu) \<longrightarrow>
              bv_arrivalTime ex_best \<le> tu \<and> (j < k \<longrightarrow> bv_arrivalTime ex_best < tu)))
   \<and> best_vehicle_arrival ex_routes_files [''L1''] ''X'' ''Y'' 40 = None
   \<and> vehicle_offer ''X'' ''Y'' 40 (snd (candidates ex_routes_files [''L1''] ! 2)) = None"
proof -
  note t0 = best_vehicle_arrival_spec
    [of "''X''" "''Y''" 0 _ _ _ ex_routes_files "[''L1'']",
     THEN conjunct2, THEN conjunct2, THEN conjunct2, rule_format, OF ex_best_at_0]
  note t40 = best_vehicle_arrival_spec
    [of "''X''" "''Y''" 40 _ _ _ ex_routes_files "[''L1'']",
     THEN conjunct2, THEN conjunct2, THEN conjunct1, THEN iffD1, OF ex_best_at_40]
  have w2: "bv_vehicleId ex_best = ''v80''" and w3: "bv_arrivalTime ex_best = 80"
    by (simp_all add: ex_best_def)
  have w4: "(\<exists>k < length (candidates ex_routes_files [''L1'']).
          vehicle_offer ''X'' ''Y'' 0 (snd (candidates ex_routes_files [''L1''] ! k))
            = Some (bv_boardLatest ex_best, bv_arrivalTime ex_best)
        \<and> bv_routesFile ex_best = fst (candidates ex_routes_files [''L1''] ! k)
        \<and> bv_vehicleId ex_best = pv_id (snd (candidates ex_routes_files [''L1''] ! k))
        \<and> bv_line ex_best = pv_line (snd (candidates ex_routes_files [''L1''] ! k))
        \<and> bv_vehicleDepart ex_best = pv_depart (snd (candidates ex_routes_files [''L1''] ! k))
        \<and> bv_fromStop ex_best = ''X'' \<and> bv_toStop ex_best = ''Y''
        \<and> (\<forall>j < length (candidates ex_routes_files [''L1'']). \<forall>fu tu.
              vehicle_offer ''X'' ''Y'' 0
                (snd (candidates ex_routes_files [''L1''] ! j)) = Some (fu, tu) \<longrightarrow>
              bv_arrivalTime ex_best \<le> tu \<and> (j < k \<longrightarrow> bv_arrivalTime ex_best < tu)))"
    by (rule t0)
  have mem: "candidates ex_routes_files [''L1''] ! 2 \<in> set (candidates ex_routes_files [''L1''])"
    by (simp add: candidates_def iter_vehicle_candidates_def ex_routes_files_def ex_vehicle_def)
  note w5 = t40 [rule_format, OF mem]
  show ?thesis
    by (intro conjI) (rule ex_best_at_0 w2 w3 w4 ex_best_at_40 w5)+
qed

subsection \<open>Chain Validator: the report of a plan\<close>









subsection \<open>Lane Matcher: fallback order\<close>

lemma atan2_west: "atan2 0 (-10) = pi"
  by (simp add: atan2_def)

lemma angle_diff_pi_0: "angle_diff_rad pi 0 = pi"
  by (simp add: angle_diff_rad_def py_mod_def)

lemma ex_heading: "lane_heading_rad ex_lane_west = Some pi"
  by (simp add: lane_heading_rad_def ex_lane_west_def atan2_west Let_def)

lemma ex_valid: "is_valid_lane ex_lane_west c (Some [''bus''])"
  by (simp add: is_valid_lane_def ex_lane_west_def startswith_def)

lemma ex_ladder: "radius_ladder 4000 = [100, 500, 1000, 2000, 4000]"
  by (simp add: radius_ladder_def)

lemma ex_pick_heading:
  "pick_lane (Some [''bus'']) (Some 0) (radians 90) [(ex_lane_west, d)] c = None"
  by (simp add: pick_lane_def ex_valid ex_heading angle_diff_pi_0 radians_def)

lemma ex_pick_heading_nil:
  "pick_lane (Some [''bus'']) (Some 0) (radians 90) [] c = None"
  by (simp add: pick_lane_def)

text \<open>
  Claim C5 at a concrete stop. The preferred heading is east (\<open>0\<close>), the only lane near the stop
  runs west and is found at the second radius of the ladder (500). The heading-constrained
  search and the connectivity-relaxed retry both reject it. The retry loop has then last
  queried radius 100, where there is no lane, and the heading-free retry runs on these lanes
  only: the stop is reported unmatched, although the heading-free retry on the lanes of the
  radius already queried (500) picks the lane. When the lane lies within the first radius the
  same fallback matches it.
\<close>

theorem find_nearest_edge_fallback_misses_lane:
  "find_nearest_edge ex_neighbors (\<lambda>la. 5) (Some [''bus'']) 4000 (Some 0) 90 = None
   \<and> search_ladder ex_neighbors (radius_ladder 4000) [] = ex_neighbors 500
   \<and> pick_lane_ignore_heading (Some [''bus'']) (ex_neighbors 500) False
       = Some (ex_lane_west, 300)
   \<and> find_nearest_edge ex_neighbors_near (\<lambda>la. 5) (Some [''bus'']) 4000 (Some 0) 90
       = Some \<lparr>match_edge_id = ''E5'', match_lane_id = ''E5_0'', match_pos = 5,
               match_distance = 50\<rparr>"
  by (simp add: find_nearest_edge_def ex_ladder ex_neighbors_def ex_neighbors_near_def
      ex_pick_heading ex_pick_heading_nil pick_lane_ignore_heading_def ex_valid Let_def
      ex_lane_west_def [THEN arg_cong [of _ _ edge_id]] ex_lane_west_def [THEN arg_cong [of _ _ lane_id]])

subsection \<open>Heading Estimator\<close>






















end
